theory Spec2Isabelle
  imports Complex_Main "HOL-Library.Sublist"
begin

section \<open>The wearables gateway bootstrap (backend/wearables/main.py)\<close>

text \<open>
  The module is a linear start-up script: load the environment file, try to initialise
  the telemetry client, build the application, attach CORS, register the root route,
  mount the v2 router and, when run as a script, start the listener. The model follows
  that order. Exceptions are values of type \<open>exn\<close>; a statement that may raise returns
  \<open>exn + 'a\<close> with \<open>Inl\<close> for the exception.
\<close>

subsection \<open>Python values and the builtins the module calls\<close>

datatype exn = KeyError string | ValueError string | OtherError string

text \<open>
  The values that reach \<open>int(...)\<close> and \<open>bool(...)\<close> in the last line of the module:
  a string taken from \<open>os.environ\<close>, or the default, which is the integer \<open>6644\<close> or
  the boolean \<open>False\<close>.
\<close>

datatype pyval = PyStr string | PyInt int | PyBool bool

type_synonym environ = "string \<rightharpoonup> string"

definition environ_getitem :: "environ \<Rightarrow> string \<Rightarrow> exn + string" where
  \<comment> \<open>\<open>os.environ[k]\<close>: a missing key raises KeyError.\<close>
  "environ_getitem env k = (case env k of None \<Rightarrow> Inl (KeyError k) | Some v \<Rightarrow> Inr v)"

definition environ_get :: "environ \<Rightarrow> string \<Rightarrow> pyval \<Rightarrow> pyval" where
  \<comment> \<open>\<open>os.environ.get(k, d)\<close>: the default only when the key is missing.\<close>
  "environ_get env k d = (case env k of None \<Rightarrow> d | Some v \<Rightarrow> PyStr v)"

fun py_bool :: "pyval \<Rightarrow> bool" where
  \<comment> \<open>\<open>bool(x)\<close>: a string is true unless it is empty.\<close>
  "py_bool (PyStr s) = (s \<noteq> [])"
| "py_bool (PyInt i) = (i \<noteq> 0)"
| "py_bool (PyBool b) = b"

text \<open>
  \<open>int(s)\<close> on a string, base ten. A value of \<open>os.environ\<close> is a byte string of the
  process environment, which Python decodes as UTF-8 with the \<open>surrogateescape\<close> error
  handler; \<open>int\<close> then reads code points. It skips white space on both sides, takes one
  optional sign, and reads decimal digits, where a single underscore may stand between
  two digits. White space and digits are not only the ASCII ones: any Unicode decimal
  digit counts, with its value (the table is that of Unicode 14, as Python 3.11 has it).
  A string with more than 4300 digits is refused. Every failure is a ValueError.
\<close>

definition cont :: "nat \<Rightarrow> bool" where
  \<comment> \<open>a UTF-8 continuation byte\<close>
  "cont b = (0x80 \<le> b \<and> b \<le> 0xBF)"

definition utf8_seq :: "nat \<Rightarrow> nat list \<Rightarrow> (nat \<times> nat) option" where
  \<comment> \<open>the code point that the lead byte \<open>b\<close> and the bytes after it encode, with the
      number of continuation bytes used; \<open>None\<close> when they are not well-formed UTF-8
      (overlong forms, surrogates and values above U+10FFFF are not)\<close>
  "utf8_seq b bs =
     (case bs of
        [] \<Rightarrow> None
      | b1 # r1 \<Rightarrow>
          if 0xC2 \<le> b \<and> b \<le> 0xDF \<and> cont b1
          then Some ((b - 0xC0) * 64 + (b1 - 0x80), 1)
          else (case r1 of
             [] \<Rightarrow> None
           | b2 # r2 \<Rightarrow>
               if ((b = 0xE0 \<and> 0xA0 \<le> b1 \<and> b1 \<le> 0xBF)
                   \<or> ((0xE1 \<le> b \<and> b \<le> 0xEC \<or> 0xEE \<le> b \<and> b \<le> 0xEF) \<and> cont b1)
                   \<or> (b = 0xED \<and> 0x80 \<le> b1 \<and> b1 \<le> 0x9F)) \<and> cont b2
               then Some (((b - 0xE0) * 64 + (b1 - 0x80)) * 64 + (b2 - 0x80), 2)
               else (case r2 of
                  [] \<Rightarrow> None
                | b3 # r3 \<Rightarrow>
                    if ((b = 0xF0 \<and> 0x90 \<le> b1 \<and> b1 \<le> 0xBF)
                        \<or> (0xF1 \<le> b \<and> b \<le> 0xF3 \<and> cont b1)
                        \<or> (b = 0xF4 \<and> 0x80 \<le> b1 \<and> b1 \<le> 0x8F)) \<and> cont b2 \<and> cont b3
                    then Some ((((b - 0xF0) * 64 + (b1 - 0x80)) * 64 + (b2 - 0x80)) * 64
                               + (b3 - 0x80), 3)
                    else None)))"

function utf8_decode :: "nat list \<Rightarrow> nat list" where
  \<comment> \<open>a byte that starts no well-formed sequence is escaped as the lone surrogate
      U+DC00 + byte, and decoding goes on with the next byte\<close>
  "utf8_decode [] = []"
| "utf8_decode (b # bs) =
     (if b < 0x80 then b # utf8_decode bs
      else case utf8_seq b bs of
             None \<Rightarrow> (0xDC00 + b) # utf8_decode bs
           | Some (cp, k) \<Rightarrow> cp # utf8_decode (drop k bs))"
  by pat_completeness auto
termination
  by (relation "measure length") auto

definition fsdecode :: "string \<Rightarrow> nat list" where
  \<comment> \<open>the code points of the Python string for a value of the environment\<close>
  "fsdecode s = utf8_decode (map of_char s)"

definition int_spaces :: "nat list" where
  \<comment> \<open>the code points \<open>int\<close> skips around the number; U+001C to U+001F are white
      space for \<open>str.strip\<close> but not here\<close>
  "int_spaces =
     [0x09, 0x0A, 0x0B, 0x0C, 0x0D, 0x20, 0x85, 0xA0, 0x1680,
      0x2000, 0x2001, 0x2002, 0x2003, 0x2004, 0x2005, 0x2006, 0x2007, 0x2008, 0x2009, 0x200A,
      0x2028, 0x2029, 0x202F, 0x205F, 0x3000]"

definition int_space :: "nat \<Rightarrow> bool" where
  "int_space c = (c \<in> set int_spaces)"

definition decimal_zeros :: "nat list" where
  \<comment> \<open>the digit zero of every decimal digit range; the nine code points after each
      are its digits one to nine\<close>
  "decimal_zeros =
     [0x30, 0x660, 0x6F0, 0x7C0, 0x966, 0x9E6, 0xA66, 0xAE6, 0xB66, 0xBE6, 0xC66, 0xCE6,
      0xD66, 0xDE6, 0xE50, 0xED0, 0xF20, 0x1040, 0x1090, 0x17E0, 0x1810, 0x1946, 0x19D0,
      0x1A80, 0x1A90, 0x1B50, 0x1BB0, 0x1C40, 0x1C50, 0xA620, 0xA8D0, 0xA900, 0xA9D0,
      0xA9F0, 0xAA50, 0xABF0, 0xFF10, 0x104A0, 0x10D30, 0x11066, 0x110F0, 0x11136,
      0x111D0, 0x112F0, 0x11450, 0x114D0, 0x11650, 0x116C0, 0x11730, 0x118E0, 0x11950,
      0x11C50, 0x11D50, 0x11DA0, 0x16A60, 0x16AC0, 0x16B50, 0x1D7CE, 0x1D7D8, 0x1D7E2,
      0x1D7EC, 0x1D7F6, 0x1E140, 0x1E2F0, 0x1E950, 0x1FBF0]"

definition decimal :: "nat \<Rightarrow> nat option" where
  \<comment> \<open>the value of a decimal digit\<close>
  "decimal c = map_option (\<lambda>z. c - z) (find (\<lambda>z. z \<le> c \<and> c \<le> z + 9) decimal_zeros)"

fun digits_scan ::
  "bool \<Rightarrow> nat list \<Rightarrow> nat list \<Rightarrow> (nat list \<times> nat list) option" where
  \<comment> \<open>the scan over digits and underscores: \<open>prev_us\<close> says that the last character
      was an underscore, \<open>ds\<close> are the digits read so far; the result is the digits and
      the rest of the string, or \<open>None\<close> for a doubled or a trailing underscore\<close>
  "digits_scan prev_us ds [] = (if prev_us then None else Some (ds, []))"
| "digits_scan prev_us ds (c # cs) =
     (case decimal c of
        Some d \<Rightarrow> digits_scan False (ds @ [d]) cs
      | None \<Rightarrow>
          if c = 0x5F then (if prev_us then None else digits_scan True ds cs)
          else if prev_us then None
          else Some (ds, c # cs))"

definition int_max_str_digits :: nat where
  \<comment> \<open>the interpreter's default limit on the digits of a string to convert\<close>
  "int_max_str_digits = 4300"

definition digits_value :: "nat list \<Rightarrow> nat" where
  "digits_value ds = foldl (\<lambda>a d. 10 * a + d) 0 ds"

definition int_of_codepoints :: "nat list \<Rightarrow> int option" where
  \<comment> \<open>skip white space, take one sign, refuse a leading underscore, scan the digits,
      apply the limit, ask for at least one digit, skip white space, ask for the end\<close>
  "int_of_codepoints cps =
     (let s1 = dropWhile int_space cps;
          neg = (s1 \<noteq> [] \<and> hd s1 = 0x2D);
          s2 = (if s1 \<noteq> [] \<and> (hd s1 = 0x2B \<or> hd s1 = 0x2D) then tl s1 else s1)
      in if s2 \<noteq> [] \<and> hd s2 = 0x5F then None
         else case digits_scan False [] s2 of
                None \<Rightarrow> None
              | Some (ds, rest) \<Rightarrow>
                  if int_max_str_digits < length ds then None
                  else if ds = [] then None
                  else if dropWhile int_space rest \<noteq> [] then None
                  else Some (if neg then - int (digits_value ds) else int (digits_value ds)))"

definition int_of_string :: "string \<Rightarrow> int option" where
  "int_of_string s = int_of_codepoints (fsdecode s)"

text \<open>
  The same strings described as a grammar, for the statements below:
  \<^verbatim>\<open>space* ["+" | "-"] digit (["_"] digit)* space*\<close>
  with at most 4300 digits, the value being the digits read in base ten.
  \<open>digit_tail cs ds\<close> says that \<open>cs\<close> is a sequence \<^verbatim>\<open>(["_"] digit)*\<close> whose digits have
  the values \<open>ds\<close>.
\<close>

inductive digit_tail :: "nat list \<Rightarrow> nat list \<Rightarrow> bool" where
  tail_end: "digit_tail [] []"
| tail_digit: "decimal c = Some d \<Longrightarrow> digit_tail cs ds \<Longrightarrow> digit_tail (c # cs) (d # ds)"
| tail_underscore:
    "decimal c = Some d \<Longrightarrow> digit_tail cs ds \<Longrightarrow> digit_tail (0x5F # c # cs) (d # ds)"

definition int_literal :: "nat list \<Rightarrow> int \<Rightarrow> bool" where
  "int_literal cps n =
     (\<exists>l sg c d cs ds r.
        cps = l @ sg @ c # cs @ r
        \<and> list_all int_space l \<and> list_all int_space r
        \<and> (sg = [] \<or> sg = [0x2B] \<or> sg = [0x2D])
        \<and> decimal c = Some d \<and> digit_tail cs ds
        \<and> length (d # ds) \<le> int_max_str_digits
        \<and> n = (if sg = [0x2D] then - int (digits_value (d # ds))
                else int (digits_value (d # ds))))"


definition stops :: "nat list \<Rightarrow> bool" where
  \<comment> \<open>the scan of digits ends before \<open>rest\<close>\<close>
  "stops rest = (rest = [] \<or> (decimal (hd rest) = None \<and> hd rest \<noteq> 0x5F))"

fun py_int :: "pyval \<Rightarrow> exn + int" where
  \<comment> \<open>\<open>int(x)\<close>\<close>
  "py_int (PyInt i) = Inr i"
| "py_int (PyBool b) = Inr (if b then 1 else 0)"
| "py_int (PyStr s) = (case int_of_string s of None \<Rightarrow> Inl (ValueError s) | Some i \<Rightarrow> Inr i)"

subsection \<open>The listener\<close>

text \<open>
  \<^verbatim>\<open>app.run(host=os.environ.get('APP_HOST', '0.0.0.0'),
          port=int(os.environ.get('APP_PORT', 6644)),
          debug=bool(os.environ.get('APP_DEBUG', False)))\<close>

  The arguments are evaluated from left to right; only \<open>int\<close> can raise, and when it
  does \<open>app.run\<close> is never called. \<open>listener_args\<close> is the argument list that reaches
  \<open>app.run\<close>, over \<open>os.environ\<close> as it is when the line runs.
\<close>

record run_args =
  run_host :: pyval
  run_port :: int
  run_debug :: bool

definition listener_args :: "environ \<Rightarrow> exn + run_args" where
  "listener_args env =
     (let h = environ_get env ''APP_HOST'' (PyStr ''0.0.0.0'') in
      case py_int (environ_get env ''APP_PORT'' (PyInt 6644)) of
        Inl e \<Rightarrow> Inl e
      | Inr p \<Rightarrow>
          Inr \<lparr>run_host = h, run_port = p,
               run_debug = py_bool (environ_get env ''APP_DEBUG'' (PyBool False))\<rparr>)"

subsection \<open>Telemetry\<close>

text \<open>
  \<^verbatim>\<open>try:
      sentry_sdk.init(dsn=os.environ['SENTRY_DSN'], traces_sample_rate=1.0)
  except: pass\<close>

  \<open>sentry_sdk\<close> is a library, so its \<open>init\<close> is a parameter of the model: given the
  options and the library's process-wide state it returns the new state and, when it
  raises, the exception. The process state keeps what the module can observe or change:
  the environment, the library's state, the calls of \<open>sentry_sdk.init\<close> made so far
  (oldest first) and the lines the module itself has logged.
\<close>

record sentry_opts =
  dsn :: string
  traces_sample_rate :: real

type_synonym 'g sdk_init = "sentry_opts \<Rightarrow> 'g \<Rightarrow> exn option \<times> 'g"

record 'g process =
  os_environ :: environ
  sentry_state :: 'g
  sentry_inits :: "sentry_opts list"
  log_lines :: "string list"

definition sentry_try_body :: "'g sdk_init \<Rightarrow> 'g process \<Rightarrow> exn option \<times> 'g process" where
  \<comment> \<open>the body of the \<open>try\<close>: the exception it ends with, if any, and the state it leaves\<close>
  "sentry_try_body init st =
     (case environ_getitem (os_environ st) ''SENTRY_DSN'' of
        Inl e \<Rightarrow> (Some e, st)
      | Inr d \<Rightarrow>
          (let opts = \<lparr>dsn = d, traces_sample_rate = 1\<rparr>;
               (r, g) = init opts (sentry_state st)
           in (r, st\<lparr>sentry_state := g, sentry_inits := sentry_inits st @ [opts]\<rparr>)))"

definition init_telemetry :: "'g sdk_init \<Rightarrow> 'g process \<Rightarrow> exn + 'g process" where
  \<comment> \<open>the whole statement; \<open>Inr\<close> means control goes on to \<open>app = Flask(__name__)\<close>\<close>
  "init_telemetry init st =
     (case sentry_try_body init st of
        (None, st') \<Rightarrow> Inr st'
      | (Some e, st') \<Rightarrow> Inr st')"

subsection \<open>The application and its routes\<close>

datatype json = JString string | JArray "json list" | JObject "(string \<times> json) list"

definition root :: "json \<times> nat" where
  \<comment> \<open>\<open>def root()\<close>: no parameter, no state read or written, a literal returned\<close>
  "root =
     (JObject [(''service'', JString ''wearables-gateway''),
               (''version'', JString ''v2''),
               (''endpoints'', JArray [JString ''/api/v2/''])], 200)"

datatype http_method = GET | HEAD | POST | PUT | DELETE | PATCH | OPTIONS

datatype content = JsonBody json | TextBody string

record request =
  req_method :: http_method
  req_path :: string

record response =
  resp_status :: nat
  resp_body :: content
  resp_headers :: "(string \<times> string) list"

text \<open>
  A view function answers a request and may change the world \<open>'w\<close> it runs in (whatever
  a handler can read or write: databases, devices, globals).
\<close>

type_synonym 'w view = "request \<Rightarrow> 'w \<Rightarrow> response \<times> 'w"

record 'w app =
  url_map :: "((http_method \<times> string) \<times> 'w view) list"
  after_request_funcs :: "(response \<Rightarrow> response) list"

definition view_of :: "json \<times> nat \<Rightarrow> 'w view" where
  \<comment> \<open>Modelled from the spec: the web framework is not part of the repository. A handler
      without parameters that returns a payload and a status answers every request with
      that payload and that status and leaves the world alone; headers are those the
      response hooks add.\<close>
  "view_of r = (\<lambda>rq w. (\<lparr>resp_status = snd r, resp_body = JsonBody (fst r),
                             resp_headers = []\<rparr>, w))"

definition Flask :: "'w app" where
  \<comment> \<open>Modelled from the spec: the web framework is not part of the repository. The
      application starts with an empty Route Table and no response hooks.\<close>
  "Flask = \<lparr>url_map = [], after_request_funcs = []\<rparr>"

definition add_url_rule :: "'w app \<Rightarrow> http_method \<Rightarrow> string \<Rightarrow> 'w view \<Rightarrow> 'w app" where
  \<comment> \<open>Modelled from the spec: the Route Table is an append-only mapping from
      (path, method) to handler.\<close>
  "add_url_rule a m p v = a\<lparr>url_map := url_map a @ [((m, p), v)]\<rparr>"

definition not_found :: response where
  "not_found = \<lparr>resp_status = 404, resp_body = TextBody ''Not Found'', resp_headers = []\<rparr>"

definition full_dispatch_request :: "'w app \<Rightarrow> request \<Rightarrow> 'w \<Rightarrow> response \<times> 'w" where
  \<comment> \<open>Modelled from the spec: the framework's dispatch is not part of the repository. A
      request is answered by the handler the Route Table has for its method and path, an
      unmatched one by a not-found response; every response then passes the response
      hooks in the order they were attached.\<close>
  "full_dispatch_request a rq w =
     (let (r, w') = (case map_of (url_map a) (req_method rq, req_path rq) of
                       None \<Rightarrow> (not_found, w)
                     | Some v \<Rightarrow> v rq w)
      in (fold (\<lambda>f r. f r) (after_request_funcs a) r, w'))"

definition cors_after_request :: "response \<Rightarrow> response" where
  \<comment> \<open>Modelled from the spec: the CORS library is not part of the repository. It adds
      the header permitting cross-origin requests from any origin.\<close>
  "cors_after_request r =
     r\<lparr>resp_headers := resp_headers r @ [(''Access-Control-Allow-Origin'', ''*'')]\<rparr>"

definition CORS :: "'w app \<Rightarrow> 'w app" where
  \<comment> \<open>Modelled from the spec: \<open>CORS(app)\<close> with no options intercepts every outbound
      response of the application, with no per-route exception.\<close>
  "CORS a = a\<lparr>after_request_funcs := after_request_funcs a @ [cors_after_request]\<rparr>"

definition init_v2 :: "((http_method \<times> string) \<times> 'w view) list \<Rightarrow> 'w app \<Rightarrow> 'w app" where
  \<comment> \<open>Modelled from the spec: the module \<open>apiVersions.v2\<close> is missing from the sources. It
      accepts the application and adds its own route handlers, all of them below
      \<open>/api/v2/\<close>; \<open>routes\<close> are those handlers with their paths relative to that prefix.\<close>
  "init_v2 routes a =
     fold (\<lambda>((m, p), v) b. add_url_rule b m (''/api/v2/'' @ p) v) routes a"

definition application :: "((http_method \<times> string) \<times> 'w view) list \<Rightarrow> 'w app" where
  \<comment> \<open>the application as the module leaves it: \<open>Flask\<close>, \<open>CORS\<close>, the root route,
      \<open>init_v2\<close>; the registration of v1 is commented out\<close>
  "application v2_routes = init_v2 v2_routes (add_url_rule (CORS Flask) GET ''/'' (view_of root))"

subsection \<open>Loading the environment file\<close>

definition dotenv_values :: "(string \<times> string) list \<Rightarrow> environ" where
  \<comment> \<open>the bindings of the file, a later line replacing an earlier one for the same key\<close>
  "dotenv_values kvs = fold (\<lambda>(k, v) d. d(k \<mapsto> v)) kvs Map.empty"

definition load_dotenv :: "(string \<times> string) list option \<Rightarrow> environ \<Rightarrow> environ" where
  \<comment> \<open>Modelled from the spec: the loader is a library, not part of the repository. It
      loads the file into the environment and does not override existing variables;
      an absent file (\<open>None\<close>) is not an error.\<close>
  "load_dotenv file env =
     (case file of
        None \<Rightarrow> env
      | Some kvs \<Rightarrow>
          fold (\<lambda>k e. case e k of Some _ \<Rightarrow> e | None \<Rightarrow> e(k := dotenv_values kvs k))
               (remdups (map fst kvs)) env)"

subsection \<open>The module as a whole\<close>

text \<open>
  \<open>is_main\<close> says whether the file runs as a script (\<open>__name__ == '__main__'\<close>); only
  then is the listener started, with the arguments returned in the third component.
\<close>

definition main_module ::
  "bool \<Rightarrow> (string \<times> string) list option \<Rightarrow> 'g sdk_init \<Rightarrow>
   ((http_method \<times> string) \<times> 'w view) list \<Rightarrow> 'g process \<Rightarrow>
   exn + ('g process \<times> 'w app \<times> run_args option)" where
  "main_module is_main file init v2_routes st0 =
     (let st1 = st0\<lparr>os_environ := load_dotenv file (os_environ st0)\<rparr> in
      case init_telemetry init st1 of
        Inl e \<Rightarrow> Inl e
      | Inr st2 \<Rightarrow>
          (let a = application v2_routes in
           if is_main then
             (case listener_args (os_environ st2) of
                Inl e \<Rightarrow> Inl e
              | Inr args \<Rightarrow> Inr (st2, a, Some args))
           else Inr (st2, a, None)))"

section \<open>Properties\<close>

subsection \<open>Reading integers\<close>

lemma decimal_specials:
  "decimal 0x5F = None" "decimal 0x2B = None" "decimal 0x2D = None"
  by (simp_all add: decimal_def decimal_zeros_def)

lemma space_specials:
  "\<not> int_space 0x5F" "\<not> int_space 0x2B" "\<not> int_space 0x2D"
  by (simp_all add: int_space_def int_spaces_def)

lemma spaces_not_decimal: "list_all (\<lambda>c. decimal c = None) int_spaces"
  by (simp add: int_spaces_def decimal_def decimal_zeros_def)

lemma space_not_decimal: "int_space c \<Longrightarrow> decimal c = None"
  using spaces_not_decimal by (simp add: int_space_def list_all_iff)

lemma space_not_underscore: "int_space c \<Longrightarrow> c \<noteq> 0x5F"
  using space_specials(1) by auto

text \<open>The scan reads every sequence of the grammar, and nothing else.\<close>

lemma digits_scan_complete:
  "digit_tail b ds \<Longrightarrow> stops rest \<Longrightarrow>
   digits_scan False acc (b @ rest) = Some (acc @ ds, rest)"
proof (induction arbitrary: acc rule: digit_tail.induct)
  case tail_end
  then show ?case by (cases rest) (auto simp: stops_def)
next
  case (tail_digit c d cs ds)
  then show ?case by simp
next
  case (tail_underscore c d cs ds)
  then show ?case by (simp add: decimal_specials)
qed

lemma digits_scan_sound:
  "digits_scan p acc s = Some (ds', rest) \<Longrightarrow>
   \<exists>b ds. s = b @ rest \<and> ds' = acc @ ds \<and> stops rest
          \<and> (if p then digit_tail (0x5F # b) ds else digit_tail b ds)"
proof (induction p acc s rule: digits_scan.induct)
  case (1 prev_us ds)
  then have "\<not> prev_us" "ds' = ds" "rest = []" by (auto split: if_splits)
  then show ?case by (simp add: stops_def tail_end)
next
  case (2 prev_us acc c cs)
  show ?case
  proof (cases "decimal c")
    case (Some d)
    with "2.prems" have "digits_scan False (acc @ [d]) cs = Some (ds', rest)" by simp
    with "2.IH"(2) [OF Some] obtain b ds0 where
      b: "cs = b @ rest" "ds' = (acc @ [d]) @ ds0" "stops rest" "digit_tail b ds0"
      by auto
    from Some b(4) have "digit_tail (c # b) (d # ds0)" "digit_tail (0x5F # c # b) (d # ds0)"
      by (auto intro: digit_tail.intros)
    with b show ?thesis
      by (intro exI [of _ "c # b"] exI [of _ "d # ds0"]) simp
  next
    case None
    show ?thesis
    proof (cases "c = 0x5F")
      case True
      with None "2.prems" have p: "\<not> prev_us"
        and scan: "digits_scan True acc cs = Some (ds', rest)"
        by (auto split: if_splits)
      from "2.IH"(1) [OF None True p scan] obtain b ds0 where
        "cs = b @ rest" "ds' = acc @ ds0" "stops rest" "digit_tail (0x5F # b) ds0"
        by auto
      with True p show ?thesis
        by (intro exI [of _ "c # b"] exI [of _ ds0]) simp
    next
      case False
      with None "2.prems" have "\<not> prev_us" "ds' = acc" "rest = c # cs"
        by (auto split: if_splits)
      with None False show ?thesis
        by (intro exI [of _ "[]"] exI [of _ "[]"]) (simp add: stops_def tail_end)
    qed
  qed
qed

lemma digit_tail_head:
  assumes "digit_tail b ds" and "ds \<noteq> []" and "hd b \<noteq> 0x5F"
  shows "\<exists>c d cs ds0. b = c # cs \<and> ds = d # ds0 \<and> decimal c = Some d \<and> digit_tail cs ds0"
  using assms by (cases rule: digit_tail.cases) auto

lemma dropWhile_spaces:
  "list_all int_space l \<Longrightarrow> \<not> int_space c \<Longrightarrow> dropWhile int_space (l @ c # cs) = c # cs"
  by (induction l) auto

lemma dropWhile_all: "list_all p r \<Longrightarrow> dropWhile p r = []"
  by (induction r) auto

lemma stops_spaces: "list_all int_space r \<Longrightarrow> stops r"
  by (cases r) (auto simp: stops_def space_not_decimal space_not_underscore)

lemma int_of_codepoints_scan:
  assumes "dropWhile int_space cps = sg @ c # cs"
    and "sg = [] \<or> sg = [0x2B] \<or> sg = [0x2D]"
    and "c \<noteq> 0x5F" "c \<noteq> 0x2B" "c \<noteq> 0x2D"
    and "digits_scan False [] (c # cs) = Some (ds, r)"
    and "ds \<noteq> []" "length ds \<le> int_max_str_digits" "list_all int_space r"
  shows "int_of_codepoints cps =
           Some (if sg = [0x2D] then - int (digits_value ds) else int (digits_value ds))"
  using assms(2)
proof (elim disjE)
  assume "sg = []"
  with assms show ?thesis
    by (simp add: int_of_codepoints_def Let_def list_all_iff del: digits_scan.simps)
next
  assume "sg = [0x2B]"
  with assms show ?thesis
    by (simp add: int_of_codepoints_def Let_def list_all_iff del: digits_scan.simps)
next
  assume "sg = [0x2D]"
  with assms show ?thesis
    by (simp add: int_of_codepoints_def Let_def list_all_iff del: digits_scan.simps)
qed

lemma int_literal_complete:
  assumes "int_literal cps n"
  shows "int_of_codepoints cps = Some n"
proof -
  from assms obtain l sg c d cs ds r where
    cps: "cps = l @ sg @ c # cs @ r"
    and l: "list_all int_space l" and r: "list_all int_space r"
    and sg: "sg = [] \<or> sg = [0x2B] \<or> sg = [0x2D]"
    and c: "decimal c = Some d" and tl: "digit_tail cs ds"
    and len: "length (d # ds) \<le> int_max_str_digits"
    and n: "n = (if sg = [0x2D] then - int (digits_value (d # ds))
                 else int (digits_value (d # ds)))"
    unfolding int_literal_def by blast
  from c have cns: "\<not> int_space c" using space_not_decimal by fastforce
  from c have cne: "c \<noteq> 0x5F" "c \<noteq> 0x2B" "c \<noteq> 0x2D" using decimal_specials by auto
  have "digits_scan False [d] (cs @ r) = Some ([d] @ ds, r)"
    using tl stops_spaces [OF r] by (rule digits_scan_complete)
  with c have scan: "digits_scan False [] (c # cs @ r) = Some (d # ds, r)" by simp
  have "dropWhile int_space (l @ sg @ c # cs @ r) = sg @ c # cs @ r"
    using sg l cns by (cases sg) (auto simp: dropWhile_spaces space_specials)
  with cps have "dropWhile int_space cps = sg @ c # (cs @ r)" by simp
  from int_of_codepoints_scan [OF this sg cne scan _ len r] n show ?thesis by simp
qed

lemma dropWhile_Nil_all: "dropWhile p r = [] \<Longrightarrow> list_all p r"
  by (induction r) (auto split: if_splits)

lemma int_literal_sound:
  assumes "int_of_codepoints cps = Some n"
  shows "int_literal cps n"
proof -
  define l where "l = takeWhile int_space cps"
  define s1 where "s1 = dropWhile int_space cps"
  define sg where "sg = (if s1 \<noteq> [] \<and> (hd s1 = 0x2B \<or> hd s1 = 0x2D) then [hd s1] else [])"
  define s2 where "s2 = (if s1 \<noteq> [] \<and> (hd s1 = 0x2B \<or> hd s1 = 0x2D) then tl s1 else s1)"
  have cps: "cps = l @ sg @ s2"
  proof -
    have "cps = l @ s1" unfolding l_def s1_def by simp
    moreover have "s1 = sg @ s2" unfolding sg_def s2_def by (cases s1) auto
    ultimately show ?thesis by simp
  qed
  have l: "list_all int_space l"
    unfolding l_def by (simp add: list_all_iff) (meson set_takeWhileD)
  from assms have us: "\<not> (s2 \<noteq> [] \<and> hd s2 = 0x5F)"
    unfolding int_of_codepoints_def Let_def s2_def s1_def by (auto split: if_splits)
  from assms obtain ds' rest where scan: "digits_scan False [] s2 = Some (ds', rest)"
    and len: "length ds' \<le> int_max_str_digits" and ne: "ds' \<noteq> []"
    and rest: "dropWhile int_space rest = []"
    and n: "n = (if s1 \<noteq> [] \<and> hd s1 = 0x2D then - int (digits_value ds')
                 else int (digits_value ds'))"
    unfolding int_of_codepoints_def Let_def s2_def s1_def
    by (auto split: if_splits option.splits)
  from digits_scan_sound [OF scan] obtain b where b: "s2 = b @ rest" "digit_tail b ds'"
    by auto
  from b(2) ne have "b \<noteq> []" by (auto elim: digit_tail.cases)
  with us b(1) have "hd b \<noteq> 0x5F" by auto
  with digit_tail_head [OF b(2) ne] obtain c d cs ds0 where
    h: "b = c # cs" "ds' = d # ds0" "decimal c = Some d" "digit_tail cs ds0"
    by blast
  have sg: "sg = [] \<or> sg = [0x2B] \<or> sg = [0x2D]" unfolding sg_def by auto
  have neg: "(s1 \<noteq> [] \<and> hd s1 = 0x2D) = (sg = [0x2D])" unfolding sg_def by auto
  from rest have r: "list_all int_space rest" by (rule dropWhile_Nil_all)
  show ?thesis
    unfolding int_literal_def
    using cps b(1) h l r sg len n neg
    by (intro exI [of _ l] exI [of _ sg] exI [of _ c] exI [of _ d] exI [of _ cs]
        exI [of _ ds0] exI [of _ rest]) simp
qed

text \<open>\<open>int\<close> accepts exactly the strings of the grammar, with the value the grammar gives.\<close>

lemma int_of_codepoints_iff: "int_of_codepoints cps = Some n \<longleftrightarrow> int_literal cps n"
  using int_literal_sound int_literal_complete by blast

lemma int_of_string_iff: "int_of_string s = Some n \<longleftrightarrow> int_literal (fsdecode s) n"
  by (simp add: int_of_string_def int_of_codepoints_iff)

lemma int_of_string_None_iff: "int_of_string s = None \<longleftrightarrow> (\<nexists>n. int_literal (fsdecode s) n)"
  using int_of_string_iff [of s] by (cases "int_of_string s") auto

text \<open>
  Some strings at the edges of the grammar. The separators U+001C and U+001F are not
  skipped; a no-break space (bytes C2 A0) is; Arabic-Indic digits (U+0668 is D9 A8,
  U+0660 is D9 A0) are digits.
\<close>

lemma int_of_string_examples:
  "int_of_string ''8080'' = Some 8080"
  "int_of_string '' -8_080 '' = Some (- 8080)"
  "int_of_string ''007'' = Some 7"
  "int_of_string ''80a'' = None"
  "int_of_string ''8__0'' = None"
  "int_of_string ''_80'' = None"
  "int_of_string ''80_'' = None"
  "int_of_string ''- 7'' = None"
  "int_of_string ''0x10'' = None"
  "int_of_string [] = None"
  "int_of_string (CHR 0x1C # ''8080'') = None"
  "int_of_string (''8080'' @ [CHR 0x1F]) = None"
  "int_of_string ([CHR 0xC2, CHR 0xA0] @ ''8080'') = Some 8080"
  "int_of_string [CHR 0xD9, CHR 0xA8, CHR 0xD9, CHR 0xA0] = Some 80"
  "int_of_string (CHR 0xFF # ''80'') = None"
  by (simp_all add: int_of_string_def fsdecode_def utf8_seq_def cont_def
      int_of_codepoints_def int_space_def int_spaces_def decimal_def decimal_zeros_def
      int_max_str_digits_def digits_value_def)

text \<open>
  A non-empty string of ASCII digits is read with its positional value when it has at
  most 4300 digits, and refused when it has more.
\<close>

lemma utf8_decode_ascii: "\<forall>b\<in>set bs. b < 0x80 \<Longrightarrow> utf8_decode bs = bs"
  by (induction bs) auto

lemma ascii_digit_code:
  "c \<in> set ''0123456789'' \<Longrightarrow> 0x30 \<le> (of_char c :: nat) \<and> (of_char c :: nat) \<le> 0x39"
  by auto

lemma decimal_ascii: "0x30 \<le> c \<Longrightarrow> c \<le> 0x39 \<Longrightarrow> decimal c = Some (c - 0x30)"
  by (simp add: decimal_def decimal_zeros_def)

lemma digits_scan_ascii:
  "\<forall>c\<in>set cs. 0x30 \<le> c \<and> c \<le> 0x39 \<Longrightarrow>
   digits_scan False acc cs = Some (acc @ map (\<lambda>c. c - 0x30) cs, [])"
  by (induction cs arbitrary: acc) (auto simp: decimal_ascii)

lemma int_of_string_digits:
  assumes "s \<noteq> []" and "\<forall>c\<in>set s. c \<in> set ''0123456789''"
  shows "int_of_string s =
           (if length s \<le> 4300
            then Some (int (digits_value (map (\<lambda>c. of_char c - 0x30) s)))
            else None)"
proof -
  let ?cs = "map of_char s :: nat list"
  from assms(2) have rng: "\<forall>c\<in>set ?cs. 0x30 \<le> c \<and> c \<le> 0x39"
    using ascii_digit_code by auto
  then have "\<forall>c\<in>set ?cs. c < 0x80" by auto
  then have dec: "fsdecode s = ?cs" by (simp add: fsdecode_def utf8_decode_ascii)
  from assms(1) obtain c cs where cs: "?cs = c # cs" by (cases s) auto
  with rng have c: "0x30 \<le> c" "c \<le> 0x39" by auto
  then have "decimal c \<noteq> None" by (simp add: decimal_ascii)
  then have "\<not> int_space c" by (auto dest: space_not_decimal)
  with cs have drop: "dropWhile int_space ?cs = ?cs" by simp
  from c cs have hd: "hd ?cs \<noteq> 0x2B" "hd ?cs \<noteq> 0x2D" "hd ?cs \<noteq> 0x5F" by auto
  have scan: "digits_scan False [] ?cs = Some (map (\<lambda>c. c - 0x30) ?cs, [])"
    using digits_scan_ascii [OF rng, of "[]"] by simp
  from assms(1) have ne: "map (\<lambda>c. c - 0x30) ?cs \<noteq> []" by simp
  have "int_of_codepoints ?cs =
          (if length s \<le> 4300
           then Some (int (digits_value (map (\<lambda>c. c - 0x30) ?cs)))
           else None)"
    using hd ne scan drop
    by (simp add: int_of_codepoints_def Let_def int_max_str_digits_def)
  with dec show ?thesis by (simp add: int_of_string_def comp_def)
qed

subsection \<open>The telemetry statement\<close>

lemma init_telemetry_absent:
  "os_environ st ''SENTRY_DSN'' = None \<Longrightarrow> init_telemetry init st = Inr st"
  by (simp add: init_telemetry_def sentry_try_body_def environ_getitem_def)

lemma init_telemetry_present:
  "os_environ st ''SENTRY_DSN'' = Some d \<Longrightarrow>
   init_telemetry init st =
     Inr (st\<lparr>sentry_state := snd (init \<lparr>dsn = d, traces_sample_rate = 1\<rparr> (sentry_state st)),
             sentry_inits := sentry_inits st @ [\<lparr>dsn = d, traces_sample_rate = 1\<rparr>]\<rparr>)"
  by (simp add: init_telemetry_def sentry_try_body_def environ_getitem_def Let_def
      split: prod.splits option.splits)

lemma init_telemetry_total: "\<exists>st'. init_telemetry init st = Inr st'"
  by (auto simp: init_telemetry_def split: prod.splits option.splits)

lemma init_telemetry_environ:
  "init_telemetry init st = Inr st' \<Longrightarrow> os_environ st' = os_environ st"
  by (auto simp: init_telemetry_def sentry_try_body_def environ_getitem_def Let_def
      split: prod.splits option.splits sum.splits)

subsection \<open>The route table of the application\<close>

lemma url_map_init_v2:
  "url_map (init_v2 routes a) =
     url_map a @ map (\<lambda>((m, p), v). ((m, ''/api/v2/'' @ p), v)) routes"
  unfolding init_v2_def
  by (induction routes arbitrary: a) (auto simp: add_url_rule_def)

lemma hooks_init_v2: "after_request_funcs (init_v2 routes a) = after_request_funcs a"
  unfolding init_v2_def
  by (induction routes arbitrary: a) (auto simp: add_url_rule_def)

lemma url_map_application:
  "url_map (application routes) =
     ((GET, ''/''), view_of root) # map (\<lambda>((m, p), v). ((m, ''/api/v2/'' @ p), v)) routes"
  by (simp add: application_def url_map_init_v2 add_url_rule_def CORS_def Flask_def)

lemma hooks_application: "after_request_funcs (application routes) = [cors_after_request]"
  by (simp add: application_def hooks_init_v2 add_url_rule_def CORS_def Flask_def)

lemma map_of_mounted:
  "inj f \<Longrightarrow>
   map_of (map (\<lambda>((m, p), v). ((m, f p), v)) routes) (m, f p) = map_of routes (m, p)"
  by (induction routes) (auto dest: injD)

lemma map_of_mounted_other:
  "q \<notin> range f \<Longrightarrow> map_of (map (\<lambda>((m, p), v). ((m, f p), v)) routes) (m, q) = None"
  by (induction routes) auto

lemma v1_not_v2: "prefix ''/api/v1/'' q \<Longrightarrow> q \<notin> range (\<lambda>p. ''/api/v2/'' @ p)"
  by (auto simp: prefix_def)

lemma dispatch_application:
  "full_dispatch_request (application routes) rq w =
     (case map_of (url_map (application routes)) (req_method rq, req_path rq) of
        None \<Rightarrow> (cors_after_request not_found, w)
      | Some v \<Rightarrow> (cors_after_request (fst (v rq w)), snd (v rq w)))"
  by (simp add: full_dispatch_request_def hooks_application split: option.splits prod.splits)

text \<open>
  The root route is registered first, so \<open>GET /\<close> reaches \<open>root\<close> whatever version 2
  registers, and the world is left as it was.
\<close>

lemma dispatch_root:
  "full_dispatch_request (application routes) \<lparr>req_method = GET, req_path = ''/''\<rparr> w =
     (\<lparr>resp_status = 200, resp_body = JsonBody (fst root),
       resp_headers = [(''Access-Control-Allow-Origin'', ''*'')]\<rparr>, w)"
  by (simp add: dispatch_application url_map_application view_of_def root_def
      cors_after_request_def)

subsection \<open>The environment file\<close>

lemma load_step_keeps:
  "e k = Some v \<Longrightarrow>
   fold (\<lambda>k e. case e k of Some _ \<Rightarrow> e | None \<Rightarrow> e(k := d k)) ks e k = Some v"
proof (induction ks arbitrary: e)
  case Nil
  then show ?case by simp
next
  case (Cons a ks)
  show ?case
  proof (cases "e a")
    case None
    with Cons.prems have "a \<noteq> k" by auto
    with Cons.prems have "(e(a := d a)) k = Some v" by simp
    then have "fold (\<lambda>k e. case e k of Some _ \<Rightarrow> e | None \<Rightarrow> e(k := d k)) ks
                 (e(a := d a)) k = Some v"
      by (rule Cons.IH)
    with None show ?thesis by simp
  next
    case (Some u)
    with Cons.IH [of e] Cons.prems show ?thesis by simp
  qed
qed

lemma load_step_other:
  "k \<notin> set ks \<Longrightarrow>
   fold (\<lambda>k e. case e k of Some _ \<Rightarrow> e | None \<Rightarrow> e(k := d k)) ks e k = e k"
  by (induction ks arbitrary: e) (auto split: option.splits)

lemma load_step_new:
  "e k = None \<Longrightarrow> k \<in> set ks \<Longrightarrow>
   fold (\<lambda>k e. case e k of Some _ \<Rightarrow> e | None \<Rightarrow> e(k := d k)) ks e k = d k"
proof (induction ks arbitrary: e)
  case Nil
  then show ?case by simp
next
  case (Cons a ks)
  show ?case
  proof (cases "a = k")
    case True
    show ?thesis
    proof (cases "d k")
      case None
      have "fold (\<lambda>k e. case e k of Some _ \<Rightarrow> e | None \<Rightarrow> e(k := d k)) ks e k = d k"
      proof (cases "k \<in> set ks")
        case True
        with Cons.prems(1) show ?thesis by (rule Cons.IH)
      next
        case False
        then show ?thesis using Cons.prems(1) None by (simp add: load_step_other)
      qed
      moreover have "e(k := d k) = e" using None Cons.prems(1) by auto
      ultimately show ?thesis using True Cons.prems(1) by simp
    next
      case (Some u)
      then have "(e(k := d k)) k = Some u" by simp
      then have "fold (\<lambda>k e. case e k of Some _ \<Rightarrow> e | None \<Rightarrow> e(k := d k)) ks
                   (e(k := d k)) k = Some u"
        by (rule load_step_keeps)
      with True Cons.prems(1) Some show ?thesis by simp
    qed
  next
    case False
    with Cons.prems have in_ks: "k \<in> set ks" by simp
    show ?thesis
    proof (cases "e a")
      case None
      from False Cons.prems(1) have "(e(a := d a)) k = None" by simp
      then have "fold (\<lambda>k e. case e k of Some _ \<Rightarrow> e | None \<Rightarrow> e(k := d k)) ks
                   (e(a := d a)) k = d k"
        using in_ks by (rule Cons.IH)
      with None show ?thesis by simp
    next
      case (Some u)
      with Cons.IH [of e] Cons.prems(1) in_ks show ?thesis by simp
    qed
  qed
qed

lemma dotenv_values_map_of: "dotenv_values kvs = map_of (rev kvs)"
proof -
  have "fold (\<lambda>(k, v) d. d(k \<mapsto> v)) kvs m = m ++ map_of (rev kvs)" for m :: environ
    by (induction kvs arbitrary: m) (auto simp: map_add_def fun_eq_iff split: option.splits)
  then show ?thesis by (simp add: dotenv_values_def)
qed

text \<open>A key the environment does not have takes the file's last value for it.\<close>

lemma load_dotenv_new:
  assumes "env k = None"
  shows "load_dotenv (Some kvs) env k = map_of (rev kvs) k"
proof (cases "k \<in> fst ` set kvs")
  case True
  with assms show ?thesis
    by (simp add: load_dotenv_def load_step_new dotenv_values_map_of)
next
  case False
  then have "map_of (rev kvs) k = None" by (simp add: map_of_eq_None_iff)
  with assms False show ?thesis by (simp add: load_dotenv_def load_step_other)
qed

subsection \<open>The module as a whole\<close>

text \<open>Imported rather than run, the module always completes.\<close>

lemma main_module_imported:
  "\<exists>st a. main_module False file init routes st0 = Inr (st, a, None)"
proof -
  obtain st' where
    "init_telemetry init (st0\<lparr>os_environ := load_dotenv file (os_environ st0)\<rparr>) = Inr st'"
    using init_telemetry_total by blast
  then show ?thesis by (simp add: main_module_def)
qed

text \<open>Run as a script with a port that \<open>int\<close> rejects, it ends with the ValueError.\<close>

lemma main_module_bad_port:
  assumes "load_dotenv file (os_environ st0) ''APP_PORT'' = Some s"
    and "int_of_string s = None"
  shows "main_module True file init routes st0 = Inl (ValueError s)"
proof -
  obtain st' where st':
    "init_telemetry init (st0\<lparr>os_environ := load_dotenv file (os_environ st0)\<rparr>) = Inr st'"
    using init_telemetry_total by blast
  then have "os_environ st' = load_dotenv file (os_environ st0)"
    by (auto dest: init_telemetry_environ)
  with assms have "listener_args (os_environ st') = Inl (ValueError s)"
    by (simp add: listener_args_def environ_get_def)
  with st' show ?thesis by (simp add: main_module_def)
qed

section \<open>The claims\<close>

text \<open>
  C1. Whatever the environment holds for \<open>SENTRY_DSN\<close> (a value, nothing, or a value the
  telemetry library rejects) and whatever \<open>sentry_sdk.init\<close> does, the telemetry
  statement ends normally, so that control reaches the construction of the application.
  An exception of the body (the KeyError of the missing key included) is dropped: the
  module logs nothing, the environment is as before, and \<open>sentry_sdk.init\<close> has been
  called at most once more. With the key missing nothing changes at all.
\<close>

theorem telemetry_failure_is_discarded:
  "\<exists>st'. init_telemetry init st = Inr st'
      \<and> os_environ st' = os_environ st
      \<and> log_lines st' = log_lines st
      \<and> length (sentry_inits st') \<le> Suc (length (sentry_inits st))
      \<and> (os_environ st ''SENTRY_DSN'' = None \<longrightarrow> st' = st)"
proof (cases "os_environ st ''SENTRY_DSN''")
  case None
  then show ?thesis by (simp add: init_telemetry_absent)
next
  case (Some d)
  then show ?thesis by (simp add: init_telemetry_present)
qed

theorem telemetry_failure_is_discarded_witness:
  "(Map.empty :: environ) ''SENTRY_DSN'' = None
   \<and> init_telemetry (\<lambda>opts g. (Some (OtherError ''no transport''), g))
        \<lparr>os_environ = Map.empty, sentry_state = (), sentry_inits = [], log_lines = []\<rparr>
      = Inr \<lparr>os_environ = Map.empty, sentry_state = (), sentry_inits = [], log_lines = []\<rparr>"
  using telemetry_failure_is_discarded
    [of "\<lambda>opts g. (Some (OtherError ''no transport''), g)"
        "\<lparr>os_environ = Map.empty, sentry_state = (), sentry_inits = [], log_lines = []\<rparr>"]
  by auto

text \<open>
  C2. The function \<open>root\<close> is the literal pair of the payload
  \<open>{"service": "wearables-gateway", "version": "v2", "endpoints": ["/api/v2/"]}\<close> and the
  status 200. It has no parameter and reads no state, so as a view it gives the same
  answer to every request in every world, and leaves the world as it found it.
\<close>

theorem root_returns_service_info:
  "root = (JObject [(''service'', JString ''wearables-gateway''),
                    (''version'', JString ''v2''),
                    (''endpoints'', JArray [JString ''/api/v2/''])], 200)
   \<and> (\<forall>rq w. view_of root rq w =
        (\<lparr>resp_status = 200,
          resp_body = JsonBody (JObject [(''service'', JString ''wearables-gateway''),
                                         (''version'', JString ''v2''),
                                         (''endpoints'', JArray [JString ''/api/v2/''])]),
          resp_headers = []\<rparr>, w))"
  by (simp add: root_def view_of_def)

text \<open>
  C3. When \<open>APP_DEBUG\<close> is unset, or set to a value that \<open>bool\<close> takes for false (for a
  string of the environment that is the empty string), the debug argument is \<open>False\<close>,
  and a listener that is started is started with debug off.
\<close>

theorem debug_off_when_unset_or_falsy:
  assumes "env ''APP_DEBUG'' = None \<or> (\<exists>s. env ''APP_DEBUG'' = Some s \<and> \<not> py_bool (PyStr s))"
  shows "\<not> py_bool (environ_get env ''APP_DEBUG'' (PyBool False))
       \<and> (\<forall>a. listener_args env = Inr a \<longrightarrow> \<not> run_debug a)"
  using assms
  by (auto simp: listener_args_def environ_get_def Let_def split: sum.splits)

theorem debug_off_when_unset_or_falsy_witness:
  "(Map.empty :: environ) ''APP_DEBUG'' = None
   \<and> listener_args Map.empty
      = Inr \<lparr>run_host = PyStr ''0.0.0.0'', run_port = 6644, run_debug = False\<rparr>
   \<and> \<not> py_bool (PyStr '''')
   \<and> listener_args [''APP_DEBUG'' \<mapsto> '''']
      = Inr \<lparr>run_host = PyStr ''0.0.0.0'', run_port = 6644, run_debug = False\<rparr>"
  using debug_off_when_unset_or_falsy [of Map.empty]
    debug_off_when_unset_or_falsy [of "[''APP_DEBUG'' \<mapsto> '''']"]
  by (simp add: listener_args_def environ_get_def)

text \<open>
  C4. With \<open>APP_PORT\<close> unset the listener is started on port 6644. With \<open>APP_PORT\<close> set
  to a valid integer string (white space, an optional sign, decimal digits with single
  underscores between them, white space; at most 4300 digits) the listener is started on
  the integer the string denotes. With \<open>APP_HOST\<close> unset the host is \<open>0.0.0.0\<close>.
\<close>

theorem listener_default_and_configured_port:
  "(env ''APP_PORT'' = None \<longrightarrow> (\<exists>a. listener_args env = Inr a \<and> run_port a = 6644))
   \<and> (\<forall>s n. env ''APP_PORT'' = Some s \<and> int_literal (fsdecode s) n \<longrightarrow>
         (\<exists>a. listener_args env = Inr a \<and> run_port a = n))
   \<and> (env ''APP_HOST'' = None \<longrightarrow>
         (\<forall>a. listener_args env = Inr a \<longrightarrow> run_host a = PyStr ''0.0.0.0''))"
proof (intro conjI allI impI)
  assume "env ''APP_PORT'' = None"
  then show "\<exists>a. listener_args env = Inr a \<and> run_port a = 6644"
    by (simp add: listener_args_def environ_get_def)
next
  fix s n
  assume "env ''APP_PORT'' = Some s \<and> int_literal (fsdecode s) n"
  then have "env ''APP_PORT'' = Some s" and "int_of_string s = Some n"
    by (simp_all add: int_of_string_iff)
  then show "\<exists>a. listener_args env = Inr a \<and> run_port a = n"
    by (simp add: listener_args_def environ_get_def)
next
  fix a
  assume "env ''APP_HOST'' = None" and "listener_args env = Inr a"
  then show "run_host a = PyStr ''0.0.0.0''"
    by (auto simp: listener_args_def environ_get_def Let_def split: sum.splits)
qed

theorem listener_default_and_configured_port_witness:
  "listener_args Map.empty
      = Inr \<lparr>run_host = PyStr ''0.0.0.0'', run_port = 6644, run_debug = False\<rparr>
   \<and> int_literal (fsdecode '' +8_080 '') 8080
   \<and> (\<exists>a. listener_args [''APP_PORT'' \<mapsto> '' +8_080 ''] = Inr a \<and> run_port a = 8080
          \<and> run_host a = PyStr ''0.0.0.0'')"
proof -
  have "int_of_string '' +8_080 '' = Some 8080"
    by (simp add: int_of_string_def fsdecode_def utf8_seq_def cont_def
        int_of_codepoints_def int_space_def int_spaces_def decimal_def decimal_zeros_def
        int_max_str_digits_def digits_value_def)
  then have p: "int_literal (fsdecode '' +8_080 '') 8080"
    by (simp add: int_of_string_iff)
  from listener_default_and_configured_port [of Map.empty]
  have "\<exists>a. listener_args Map.empty = Inr a \<and> run_port a = 6644
          \<and> run_host a = PyStr ''0.0.0.0''"
    by auto
  then have d: "listener_args Map.empty
      = Inr \<lparr>run_host = PyStr ''0.0.0.0'', run_port = 6644, run_debug = False\<rparr>"
    by (auto simp: listener_args_def environ_get_def)
  from listener_default_and_configured_port [of "[''APP_PORT'' \<mapsto> '' +8_080 '']"] p
  have "\<exists>a. listener_args [''APP_PORT'' \<mapsto> '' +8_080 ''] = Inr a \<and> run_port a = 8080
          \<and> run_host a = PyStr ''0.0.0.0''"
    by auto
  with d p show ?thesis by blast
qed

text \<open>
  C5. The route table of the application holds the root route and the routes of version
  2, each below \<open>/api/v2/\<close>, and nothing of version 1. So a request for a path below
  \<open>/api/v1/\<close> gets the not-found response, and a request for a path below \<open>/api/v2/\<close>
  is looked up among the handlers of version 2, by its method and the rest of its path.
\<close>

theorem only_v2_is_mounted:
  "url_map (application routes) =
     ((GET, ''/''), view_of root) # map (\<lambda>((m, p), v). ((m, ''/api/v2/'' @ p), v)) routes
   \<and> (prefix ''/api/v1/'' (req_path rq) \<longrightarrow>
        full_dispatch_request (application routes) rq w = (cors_after_request not_found, w))
   \<and> (prefix ''/api/v2/'' (req_path rq) \<longrightarrow>
        map_of (url_map (application routes)) (req_method rq, req_path rq)
          = map_of routes (req_method rq, drop 8 (req_path rq)))"
proof (intro conjI impI)
  show "url_map (application routes) =
     ((GET, ''/''), view_of root) # map (\<lambda>((m, p), v). ((m, ''/api/v2/'' @ p), v)) routes"
    by (rule url_map_application)
next
  assume v1: "prefix ''/api/v1/'' (req_path rq)"
  then have "req_path rq \<noteq> ''/''" by (auto simp: prefix_def)
  moreover from v1 have "req_path rq \<notin> range (\<lambda>p. ''/api/v2/'' @ p)" by (rule v1_not_v2)
  then have "map_of (map (\<lambda>((m, p), v). ((m, ''/api/v2/'' @ p), v)) routes)
          (req_method rq, req_path rq) = None"
    by (rule map_of_mounted_other)
  ultimately have "map_of (url_map (application routes)) (req_method rq, req_path rq) = None"
    by (simp add: url_map_application)
  then show "full_dispatch_request (application routes) rq w = (cors_after_request not_found, w)"
    by (simp add: dispatch_application)
next
  assume "prefix ''/api/v2/'' (req_path rq)"
  then obtain p where p: "req_path rq = ''/api/v2/'' @ p" by (auto simp: prefix_def)
  have "inj (\<lambda>p. ''/api/v2/'' @ p)" by (simp add: inj_def)
  then have "map_of (map (\<lambda>((m, p), v). ((m, ''/api/v2/'' @ p), v)) routes)
          (req_method rq, ''/api/v2/'' @ p) = map_of routes (req_method rq, p)"
    by (rule map_of_mounted)
  with p show "map_of (url_map (application routes)) (req_method rq, req_path rq)
        = map_of routes (req_method rq, drop 8 (req_path rq))"
    by (simp add: url_map_application)
qed

theorem only_v2_is_mounted_witness:
  "prefix ''/api/v1/'' ''/api/v1/steps''
   \<and> full_dispatch_request
        (application [((GET, ''steps''), view_of (JArray [], 200))])
        \<lparr>req_method = GET, req_path = ''/api/v1/steps''\<rparr> ()
      = (\<lparr>resp_status = 404, resp_body = TextBody ''Not Found'',
          resp_headers = [(''Access-Control-Allow-Origin'', ''*'')]\<rparr>, ())
   \<and> prefix ''/api/v2/'' ''/api/v2/steps''
   \<and> full_dispatch_request
        (application [((GET, ''steps''), view_of (JArray [], 200))])
        \<lparr>req_method = GET, req_path = ''/api/v2/steps''\<rparr> ()
      = (\<lparr>resp_status = 200, resp_body = JsonBody (JArray []),
          resp_headers = [(''Access-Control-Allow-Origin'', ''*'')]\<rparr>, ())"
proof -
  let ?routes = "[((GET, ''steps''), view_of (JArray [], 200) :: unit view)]"
  let ?r1 = "\<lparr>req_method = GET, req_path = ''/api/v1/steps''\<rparr>"
  let ?r2 = "\<lparr>req_method = GET, req_path = ''/api/v2/steps''\<rparr>"
  have p1: "prefix ''/api/v1/'' (req_path ?r1)" and p2: "prefix ''/api/v2/'' (req_path ?r2)"
    by simp_all
  from only_v2_is_mounted [of ?routes ?r1 "()"] p1
  have "full_dispatch_request (application ?routes) ?r1 () = (cors_after_request not_found, ())"
    by blast
  moreover from only_v2_is_mounted [of ?routes ?r2 "()"] p2
  have "map_of (url_map (application ?routes)) (req_method ?r2, req_path ?r2)
          = map_of ?routes (req_method ?r2, drop 8 (req_path ?r2))"
    by blast
  then have "full_dispatch_request (application ?routes) ?r2 ()
          = (cors_after_request (fst (view_of (JArray [], 200) ?r2 ())), ())"
    by (simp add: dispatch_application view_of_def)
  ultimately show ?thesis
    using p1 p2 by (simp add: cors_after_request_def not_found_def view_of_def)
qed

text \<open>
  C6. Whatever routes version 2 registers, every response of the application, from the
  root route, from a route of version 2 or for an unmatched request, carries the header
  \<open>Access-Control-Allow-Origin: *\<close>.
\<close>

theorem every_response_allows_cross_origin:
  "(''Access-Control-Allow-Origin'', ''*'')
     \<in> set (resp_headers (fst (full_dispatch_request (application routes) rq w)))"
  by (simp add: dispatch_application cors_after_request_def split: option.splits)

text \<open>
  C7. A key that the environment holds before the file is loaded keeps its value, whatever
  the file says, and with the file absent the load returns the environment unchanged.
\<close>

theorem load_dotenv_keeps_existing:
  "(env k = Some v \<longrightarrow> load_dotenv file env k = Some v) \<and> load_dotenv None env = env"
  by (auto simp: load_dotenv_def load_step_keeps split: option.splits)

theorem load_dotenv_keeps_existing_witness:
  "[''APP_PORT'' \<mapsto> ''8000''] ''APP_PORT'' = Some ''8000''
   \<and> load_dotenv (Some [(''APP_PORT'', ''9000''), (''APP_HOST'', ''127.0.0.1'')])
        [''APP_PORT'' \<mapsto> ''8000''] ''APP_PORT'' = Some ''8000''
   \<and> load_dotenv None [''APP_PORT'' \<mapsto> ''8000''] = [''APP_PORT'' \<mapsto> ''8000'']"
  using load_dotenv_keeps_existing
    [of "[''APP_PORT'' \<mapsto> ''8000'']" "''APP_PORT''" "''8000''"
        "Some [(''APP_PORT'', ''9000''), (''APP_HOST'', ''127.0.0.1'')]"]
    load_dotenv_keeps_existing
    [of "[''APP_PORT'' \<mapsto> ''8000'']" "''APP_PORT''" "''8000''" None]
  by simp

text \<open>
  C8. With \<open>SENTRY_DSN\<close> set to \<open>d\<close>, the telemetry statement calls \<open>sentry_sdk.init\<close>
  once, with the DSN \<open>d\<close> and the trace sampling rate 1, and the state the library
  leaves is the state of the process afterwards.
\<close>

theorem telemetry_uses_dsn_with_full_sampling:
  assumes "os_environ st ''SENTRY_DSN'' = Some d"
  shows "init_telemetry init st =
     Inr (st\<lparr>sentry_state := snd (init \<lparr>dsn = d, traces_sample_rate = 1\<rparr> (sentry_state st)),
             sentry_inits := sentry_inits st @ [\<lparr>dsn = d, traces_sample_rate = 1\<rparr>]\<rparr>)"
  using assms by (rule init_telemetry_present)

theorem telemetry_uses_dsn_with_full_sampling_witness:
  "[''SENTRY_DSN'' \<mapsto> ''https://key@sentry.example/1''] ''SENTRY_DSN''
      = Some ''https://key@sentry.example/1''
   \<and> init_telemetry (\<lambda>opts g. (None, Some opts))
        \<lparr>os_environ = [''SENTRY_DSN'' \<mapsto> ''https://key@sentry.example/1''],
         sentry_state = None, sentry_inits = [], log_lines = []\<rparr>
      = Inr \<lparr>os_environ = [''SENTRY_DSN'' \<mapsto> ''https://key@sentry.example/1''],
             sentry_state =
               Some \<lparr>dsn = ''https://key@sentry.example/1'', traces_sample_rate = 1\<rparr>,
             sentry_inits =
               [\<lparr>dsn = ''https://key@sentry.example/1'', traces_sample_rate = 1\<rparr>],
             log_lines = []\<rparr>"
  using telemetry_uses_dsn_with_full_sampling
    [of "\<lparr>os_environ = [''SENTRY_DSN'' \<mapsto> ''https://key@sentry.example/1''],
          sentry_state = None, sentry_inits = [], log_lines = []\<rparr>"
        "''https://key@sentry.example/1''" "\<lambda>opts g. (None, Some opts)"]
  by simp

text \<open>
  C9. With \<open>APP_PORT\<close> set to a string that is not a valid integer string (the grammar
  above gives it no value), the conversion raises ValueError and \<open>app.run\<close> is not
  called. The default 6644 is used only when the variable is absent: with the variable
  set, a listener that is started has the port the string denotes.
\<close>

theorem unparseable_port_raises:
  assumes "env ''APP_PORT'' = Some s"
  shows "((\<nexists>n. int_literal (fsdecode s) n) \<longrightarrow> listener_args env = Inl (ValueError s))
       \<and> (\<forall>a. listener_args env = Inr a \<longrightarrow> int_literal (fsdecode s) (run_port a))"
proof (intro conjI allI impI)
  assume "\<nexists>n. int_literal (fsdecode s) n"
  then have "int_of_string s = None" by (simp add: int_of_string_None_iff)
  with assms show "listener_args env = Inl (ValueError s)"
    by (simp add: listener_args_def environ_get_def)
next
  fix a
  assume "listener_args env = Inr a"
  with assms have "int_of_string s = Some (run_port a)"
    by (auto simp: listener_args_def environ_get_def Let_def split: option.splits)
  then show "int_literal (fsdecode s) (run_port a)" by (simp add: int_of_string_iff)
qed

theorem unparseable_port_raises_witness:
  "[''APP_PORT'' \<mapsto> ''80a''] ''APP_PORT'' = Some ''80a''
   \<and> (\<nexists>n. int_literal (fsdecode ''80a'') n)
   \<and> listener_args [''APP_PORT'' \<mapsto> ''80a''] = Inl (ValueError ''80a'')"
proof -
  have "int_of_string ''80a'' = None"
    by (simp add: int_of_string_def fsdecode_def utf8_seq_def cont_def
        int_of_codepoints_def int_space_def int_spaces_def decimal_def decimal_zeros_def
        int_max_str_digits_def digits_value_def)
  then have p: "\<nexists>n. int_literal (fsdecode ''80a'') n"
    by (simp add: int_of_string_None_iff)
  have e: "[''APP_PORT'' \<mapsto> ''80a''] ''APP_PORT'' = Some ''80a''" by simp
  from unparseable_port_raises [of "[''APP_PORT'' \<mapsto> ''80a'']" "''80a''"] e p
  have "listener_args [''APP_PORT'' \<mapsto> ''80a''] = Inl (ValueError ''80a'')" by blast
  with p e show ?thesis by blast
qed

text \<open>
  C10. With \<open>APP_DEBUG\<close> set to any non-empty string, \<open>"false"\<close> and \<open>"0"\<close> included, the
  debug argument is \<open>True\<close>, and a listener that is started is started with debug on.
\<close>

theorem debug_on_for_nonempty_string:
  assumes "env ''APP_DEBUG'' = Some s" and "s \<noteq> []"
  shows "py_bool (environ_get env ''APP_DEBUG'' (PyBool False))
       \<and> (\<forall>a. listener_args env = Inr a \<longrightarrow> run_debug a)"
  using assms
  by (auto simp: listener_args_def environ_get_def Let_def split: sum.splits)

theorem debug_on_for_nonempty_string_witness:
  "listener_args [''APP_DEBUG'' \<mapsto> ''false'']
      = Inr \<lparr>run_host = PyStr ''0.0.0.0'', run_port = 6644, run_debug = True\<rparr>
   \<and> listener_args [''APP_DEBUG'' \<mapsto> ''0'']
      = Inr \<lparr>run_host = PyStr ''0.0.0.0'', run_port = 6644, run_debug = True\<rparr>"
  using debug_on_for_nonempty_string [of "[''APP_DEBUG'' \<mapsto> ''false'']" "''false''"]
    debug_on_for_nonempty_string [of "[''APP_DEBUG'' \<mapsto> ''0'']" "''0''"]
  by (simp add: listener_args_def environ_get_def)

end
